theory Spec2Isabelle
  imports Complex_Main "HOL-Library.Log_Nat"
begin

section \<open>Data model\<close>

text \<open>
  The loan collection is a JavaScript array of plain objects kept in browser storage.
  A repayment entry is \<open>{month, amount, paid}\<close>. The \<open>amount\<close> is the decimal string
  produced by \<open>toFixed(2)\<close>; it is represented by the rational number that string denotes.
\<close>

record repayment =
  month :: string
  amount :: rat
  paid :: bool

text \<open>
  A loan object. The source's fields \<open>id\<close> and \<open>amount\<close> are named \<open>id_loan\<close> and
  \<open>amount_loan\<close> here. Nullable fields are options; \<open>repayments\<close> may be missing on a
  stored loan, which the handlers test with \<open>loan.repayments ? ... : []\<close>. The status is
  the string the source compares against its literals. Numbers are the rationals that
  finite doubles denote.
\<close>

record loan =
  id_loan :: int
  borrowerId :: int
  borrowerName :: string
  lenderId :: "int option"
  lenderName :: "string option"
  amount_loan :: rat
  duration :: rat
  purpose :: string
  aadhar :: string
  pan :: string
  address :: string
  status :: string
  repayments :: "repayment list option"
  createdAt :: string
  disbursedAt :: "string option"

record user =
  id_user :: int
  name :: string
  email :: string
  password :: string
  role :: string

text \<open>
  The admin's loan edit form \<open>editingLoan\<close>. Its \<open>amount\<close> and \<open>duration\<close> are text
  fields that the handler passes through \<open>Number\<close>; the record holds the numbers read.
\<close>

record editingLoan =
  amount_edit :: rat
  duration_edit :: rat
  purpose_edit :: string
  status_edit :: string

text \<open>The borrower's request form \<open>loanData\<close>, its two numeric fields read likewise.\<close>

record loanData =
  amount_form :: rat
  duration_form :: rat
  purpose_form :: string
  aadhar_form :: string
  pan_form :: string
  address_form :: string

section \<open>JavaScript numbers and strings\<close>

text \<open>
  \<open>ilog2 x\<close> is the binary exponent of a positive rational: \<open>2^e \<le> x < 2^(e+1)\<close>.
\<close>

definition ilog2 :: "rat \<Rightarrow> int" where
  "ilog2 x = (if 1 \<le> x then bitlen \<lfloor>x\<rfloor> - 1 else - bitlen (\<lceil>1 / x\<rceil> - 1))"

definition pow2 :: "int \<Rightarrow> rat" where
  "pow2 e = (if 0 \<le> e then 2 ^ nat e else 1 / 2 ^ nat (- e))"

definition round_half_even :: "rat \<Rightarrow> int" where
  "round_half_even r =
     (let f = \<lfloor>r\<rfloor>; d = r - of_int f in
      if d < 1 / 2 then f
      else if 1 / 2 < d then f + 1
      else if even f then f else f + 1)"

text \<open>
  \<open>fl x\<close> rounds a rational to the nearest binary64 value, ties to even: 53 significant
  bits, with the exponent held at -1022 below the normal range (gradual underflow).
  Overflow is not part of \<open>fl\<close>; \<open>js_round\<close> below adds it.
\<close>

definition fl :: "rat \<Rightarrow> rat" where
  "fl x =
     (if x = 0 then 0
      else let e = max (ilog2 \<bar>x\<bar>) (- 1022) - 52
           in of_int (round_half_even (x / pow2 e)) * pow2 e)"

text \<open>
  The JavaScript quotient \<open>a / b\<close> of two finite doubles where it is finite: \<open>b\<close> is
  not zero and the quotient does not overflow, as when \<open>b\<close> is a whole number of months
  or one of the constants 12, 100 and 1200.
\<close>

definition js_div :: "rat \<Rightarrow> rat \<Rightarrow> rat" where
  "js_div a b = fl (a / b)"

text \<open>
  \<open>x.toFixed(2)\<close>, as the number its result denotes. ECMAScript takes the sign off,
  returns \<open>String(x)\<close> from \<open>10^21\<close> on, and otherwise picks the integer \<open>n\<close> with
  \<open>n / 100 - x\<close> closest to zero, the larger one when two are equally close.
\<close>

definition toFixed2 :: "rat \<Rightarrow> rat" where
  "toFixed2 x =
     (if 10 ^ 21 \<le> \<bar>x\<bar> then x
      else sgn x * (of_int \<lfloor>100 * \<bar>x\<bar> + 1 / 2\<rfloor> / 100))"

text \<open>
  The EMI calculators can divide by zero and overflow, so their numbers include the
  infinities and NaN. Zero is taken as positive zero: the only zero divisors that arise
  there are differences \<open>w - 1\<close>, which round-to-nearest makes \<open>+0\<close>.
\<close>

datatype jsnum = Fin rat | PosInf | NegInf | NaN

definition max_double :: rat where
  "max_double = (2 ^ 53 - 1) * 2 ^ 971"

text \<open>The double for an exact result: rounded, and infinite when the rounded value overflows.\<close>

definition js_round :: "rat \<Rightarrow> jsnum" where
  "js_round x =
     (let y = fl x in
      if max_double < \<bar>y\<bar> then (if 0 < x then PosInf else NegInf) else Fin y)"











text \<open>The decimal digits of a natural number, as a template literal prints it.\<close>

fun decimal :: "nat \<Rightarrow> string" where
  "decimal n =
     (if n < 10 then [''0123456789'' ! n]
      else decimal (n div 10) @ [''0123456789'' ! (n mod 10)])"

text \<open>\<open>String.prototype.trim\<close> on the ASCII white space characters.\<close>

definition is_space :: "char \<Rightarrow> bool" where
  "is_space c = (c \<in> set [CHR '' '', CHR 0x09, CHR 0x0A, CHR 0x0B, CHR 0x0C, CHR 0x0D])"

definition trim :: "string \<Rightarrow> string" where
  "trim s = rev (dropWhile is_space (rev (dropWhile is_space s)))"

section \<open>EMI calculators\<close>





section \<open>Borrower dashboard\<close>

text \<open>
  \<open>generateEMISchedule(amount, duration)\<close>, for the finite numbers a loan stores:
  \<open>Number(amount) || 0\<close> is the amount itself, \<open>Number(duration) || 1\<close> replaces zero
  by one, the instalment is the quotient printed with \<open>toFixed(2)\<close>, and
  \<open>Array.from({length: months}, ...)\<close> builds the entries for the indices below
  \<open>months\<close> (a length is truncated to an integer, a negative one is 0).
\<close>

definition generateEMISchedule :: "rat \<Rightarrow> rat \<Rightarrow> repayment list" where
  "generateEMISchedule amt dur =
     (let principal = amt;
          months = (if dur = 0 then 1 else dur);
          perMonth = toFixed2 (js_div principal months)
      in map (\<lambda>i. \<lparr>month = ''Month '' @ decimal (i + 1), amount = perMonth, paid = False\<rparr>)
             [0..<nat \<lfloor>months\<rfloor>])"

text \<open>
  The effect that runs when the borrower's loans change gives every Approved or Funds
  Disbursed loan without repayments a schedule.
\<close>

definition ensureEMIs :: "loan list \<Rightarrow> loan list" where
  "ensureEMIs loans =
     map (\<lambda>l. let isActiveStatus = (status l = ''Approved'' \<or> status l = ''Funds Disbursed'')
              in if isActiveStatus \<and> (repayments l = None \<or> repayments l = Some [])
                 then l\<lparr>repayments := Some (generateEMISchedule (amount_loan l) (duration l))\<rparr>
                 else l) loans"

text \<open>
  \<open>handleRequestLoan\<close> validates the form and appends a Pending loan without lender
  and with an empty schedule. \<open>Date.now()\<close> and the ISO time stamp are parameters.
\<close>

definition handleRequestLoan ::
  "int \<Rightarrow> string \<Rightarrow> user \<Rightarrow> loan list \<Rightarrow> loanData \<Rightarrow> string + loan list" where
  "handleRequestLoan nowMs nowIso usr loans d =
     (let amountNum = amount_form d; durationNum = duration_form d in
      if amountNum \<le> 0 \<or> durationNum \<le> 0
      then Inl ''Amount and duration must be positive.''
      else if trim (aadhar_form d) = [] then Inl ''Please enter your Aadhar number.''
      else if trim (pan_form d) = [] then Inl ''Please enter your PAN number.''
      else if trim (address_form d) = [] then Inl ''Please enter your address.''
      else Inr (loans @
        [\<lparr>id_loan = nowMs,
          borrowerId = id_user usr,
          borrowerName = name usr,
          lenderId = None,
          lenderName = None,
          amount_loan = amountNum,
          duration = durationNum,
          purpose = trim (purpose_form d),
          aadhar = trim (aadhar_form d),
          pan = trim (pan_form d),
          address = trim (address_form d),
          status = ''Pending'',
          repayments = Some [],
          createdAt = nowIso,
          disbursedAt = None\<rparr>]))"

text \<open>
  \<open>handleRepayment(loanId, index)\<close> maps over the borrower's loans. For the loan with the
  given id it copies the repayments (an absent array counts as empty), returns the loan
  itself when \<open>repayments[index]\<close> is missing or already paid, and otherwise marks the entry
  paid and sets the status to Completed when every entry is then paid.
\<close>

definition repaymentsOf :: "loan \<Rightarrow> repayment list" where
  "repaymentsOf l = (case repayments l of Some xs \<Rightarrow> xs | None \<Rightarrow> [])"

definition repay_loan :: "nat \<Rightarrow> loan \<Rightarrow> loan" where
  "repay_loan index l =
     (let rs = repaymentsOf l in
      if \<not> index < length rs \<or> paid (rs ! index) then l
      else
        let rs' = rs[index := (rs ! index)\<lparr>paid := True\<rparr>];
            allPaid = list_all paid rs'
        in l\<lparr>repayments := Some rs',
              status := (if allPaid then ''Completed'' else status l)\<rparr>)"

definition handleRepayment :: "loan list \<Rightarrow> int \<Rightarrow> nat \<Rightarrow> loan list" where
  "handleRepayment loans loanId index =
     map (\<lambda>l. if id_loan l \<noteq> loanId then l else repay_loan index l) loans"

text \<open>
  The repayment tracker lists the loans whose status is Approved, Funds Disbursed or
  Completed, and renders the Pay button of an entry under
  \<open>!emi.paid && loan.status !== "Completed"\<close>.
\<close>

definition showPay :: "loan \<Rightarrow> repayment \<Rightarrow> bool" where
  "showPay l emi =
     ((status l = ''Approved'' \<or> status l = ''Funds Disbursed'' \<or> status l = ''Completed'')
      \<and> \<not> paid emi \<and> status l \<noteq> ''Completed'')"

section \<open>Admin dashboard\<close>

definition handleApprove :: "loan list \<Rightarrow> int \<Rightarrow> loan list" where
  "handleApprove loans i =
     map (\<lambda>l. if id_loan l = i then l\<lparr>status := ''Approved''\<rparr> else l) loans"

definition handleReject :: "loan list \<Rightarrow> int \<Rightarrow> loan list" where
  "handleReject loans i =
     map (\<lambda>l. if id_loan l = i then l\<lparr>status := ''Rejected''\<rparr> else l) loans"

text \<open>
  \<open>handleAssignLender(loanId)\<close> reads the lender chosen for the loan in the table's
  select box (\<open>selectedLenders\<close>; nothing chosen, or the empty option, is \<open>None\<close>) and
  looks the user up. Either failure shows an error and changes nothing (\<open>Inl\<close>).
\<close>

definition assign_loan :: "user \<Rightarrow> loan \<Rightarrow> loan" where
  "assign_loan lender l =
     (let newStatus = (if status l = ''Pending'' \<or> status l = ''Assigned''
                       then ''Approved'' else status l)
      in l\<lparr>lenderId := Some (id_user lender),
            lenderName := Some (name lender),
            status := newStatus\<rparr>)"

definition handleAssignLender ::
  "(int \<Rightarrow> int option) \<Rightarrow> user list \<Rightarrow> loan list \<Rightarrow> int \<Rightarrow> string + loan list" where
  "handleAssignLender selectedLenders users loans loanId =
     (case selectedLenders loanId of
        None \<Rightarrow> Inl ''Please select a lender!''
      | Some lid \<Rightarrow>
          (case find (\<lambda>u. id_user u = lid) users of
             None \<Rightarrow> Inl ''Invalid lender!''
           | Some lender \<Rightarrow>
               Inr (map (\<lambda>l. if id_loan l \<noteq> loanId then l else assign_loan lender l) loans)))"

text \<open>
  \<open>handleSaveLoan(loanId)\<close> stores the edit form on the loan; an empty status in the
  form keeps the loan's own (\<open>editingLoan.status || loan.status\<close>).
\<close>

definition handleSaveLoan :: "editingLoan \<Rightarrow> loan list \<Rightarrow> int \<Rightarrow> string + loan list" where
  "handleSaveLoan e loans loanId =
     (let amountNum = amount_edit e; durationNum = duration_edit e in
      if amountNum \<le> 0 \<or> durationNum \<le> 0
      then Inl ''Amount and duration must be positive.''
      else Inr (map (\<lambda>l. if id_loan l = loanId
                          then l\<lparr>amount_loan := amountNum,
                                 duration := durationNum,
                                 purpose := trim (purpose_edit e),
                                 status := (if status_edit e \<noteq> [] then status_edit e
                                            else status l)\<rparr>
                          else l) loans))"

text \<open>
  What the loan table renders in a row: Approve and Reject under
  \<open>!isEditing && loan.status === "Pending"\<close>, and Assign under the condition below.
  A missing or empty lender name is falsy.
\<close>

definition showApproveReject :: "bool \<Rightarrow> loan \<Rightarrow> bool" where
  "showApproveReject isEditing l = (\<not> isEditing \<and> status l = ''Pending'')"

definition showAssign :: "bool \<Rightarrow> loan \<Rightarrow> bool" where
  "showAssign isEditing l =
     (\<not> isEditing \<and> status l \<noteq> ''Rejected''
      \<and> (lenderName l = None \<or> lenderName l = Some [])
      \<and> (status l = ''Approved'' \<or> status l = ''Pending'' \<or> status l = ''Assigned''))"

section \<open>Lender dashboard\<close>

text \<open>
  The lender works on \<open>assignedLoans\<close>, the stored loans whose \<open>lenderId\<close> is the
  logged-in user's id. \<open>handleDisburse\<close> stamps the loan with the current time, a
  parameter here, and \<open>updateLoans\<close> merges the changed view back into storage.
\<close>

definition assignedLoans :: "int \<Rightarrow> loan list \<Rightarrow> loan list" where
  "assignedLoans uid allLoans = filter (\<lambda>l. lenderId l = Some uid) allLoans"

definition handleDisburse :: "string \<Rightarrow> loan list \<Rightarrow> int \<Rightarrow> loan list" where
  "handleDisburse now loans loanId =
     map (\<lambda>l. if id_loan l \<noteq> loanId then l
              else if status l = ''Funds Disbursed'' then l
              else l\<lparr>status := ''Funds Disbursed'', disbursedAt := Some now\<rparr>) loans"

definition updateLoans_lender :: "int \<Rightarrow> loan list \<Rightarrow> loan list \<Rightarrow> loan list" where
  "updateLoans_lender uid allLoans updatedLoans =
     (let merged = map (\<lambda>l. if lenderId l = Some uid
                             then (case find (\<lambda>u. id_loan u = id_loan l) updatedLoans of
                                     Some u \<Rightarrow> u | None \<Rightarrow> l)
                             else l) allLoans;
          newOnes = filter (\<lambda>u. \<not> list_ex (\<lambda>l. id_loan l = id_loan u) merged) updatedLoans
      in merged @ newOnes)"

text \<open>The Mark Disbursed button of a row.\<close>

definition showDisburse :: "loan \<Rightarrow> bool" where
  "showDisburse l =
     (status l \<noteq> ''Funds Disbursed'' \<and> status l \<noteq> ''Completed'' \<and> status l \<noteq> ''Rejected'')"

section \<open>A sample history\<close>

text \<open>
  One borrower requests 12000 over two months; the admin approves, the borrower's
  dashboard generates the schedule, and both instalments are paid. The values below are
  the loan at the stages of this history; the lemmas of the next section check them
  against the handlers.
\<close>

definition borrower_ex :: user where
  "borrower_ex = \<lparr>id_user = 101, name = ''Asha'', email = ''asha@example.com'',
                   password = ''secret'', role = ''borrower''\<rparr>"

definition lender_ex :: user where
  "lender_ex = \<lparr>id_user = 202, name = ''Ravi'', email = ''ravi@example.com'',
                 password = ''secret'', role = ''lender''\<rparr>"

definition form_ex :: loanData where
  "form_ex = \<lparr>amount_form = 12000, duration_form = 2, purpose_form = ''Tuition '',
               aadhar_form = ''123412341234'', pan_form = ''ABCDE1234F'',
               address_form = ''12 Park Street''\<rparr>"

definition lid_ex :: int where
  "lid_ex = 1700000000000"

definition loan_pending :: loan where
  "loan_pending =
     \<lparr>id_loan = lid_ex, borrowerId = 101, borrowerName = ''Asha'',
      lenderId = None, lenderName = None, amount_loan = 12000, duration = 2,
      purpose = ''Tuition'', aadhar = ''123412341234'', pan = ''ABCDE1234F'',
      address = ''12 Park Street'', status = ''Pending'', repayments = Some [],
      createdAt = ''2023-11-14T22:13:20.000Z'', disbursedAt = None\<rparr>"

definition schedule_ex :: "repayment list" where
  "schedule_ex = [\<lparr>month = ''Month 1'', amount = 6000, paid = False\<rparr>,
                  \<lparr>month = ''Month 2'', amount = 6000, paid = False\<rparr>]"

definition schedule_half :: "repayment list" where
  "schedule_half = [\<lparr>month = ''Month 1'', amount = 6000, paid = True\<rparr>,
                    \<lparr>month = ''Month 2'', amount = 6000, paid = False\<rparr>]"

definition schedule_paid :: "repayment list" where
  "schedule_paid = [\<lparr>month = ''Month 1'', amount = 6000, paid = True\<rparr>,
                    \<lparr>month = ''Month 2'', amount = 6000, paid = True\<rparr>]"

definition loan_approved :: loan where
  "loan_approved = loan_pending\<lparr>status := ''Approved'', repayments := Some schedule_ex\<rparr>"

definition loan_half :: loan where
  "loan_half = loan_pending\<lparr>status := ''Approved'', repayments := Some schedule_half\<rparr>"

definition loan_completed :: loan where
  "loan_completed = loan_pending\<lparr>status := ''Completed'', repayments := Some schedule_paid\<rparr>"

definition loan_reopened :: loan where
  "loan_reopened = loan_pending\<lparr>status := ''Approved'', repayments := Some schedule_paid\<rparr>"

definition loan_rejected :: loan where
  "loan_rejected = loan_pending\<lparr>status := ''Rejected''\<rparr>"

definition loan_assigned :: loan where
  "loan_assigned = loan_approved\<lparr>lenderId := Some 202, lenderName := Some ''Ravi''\<rparr>"

text \<open>A second, completed loan of another id with a lender bound, and a time stamp.\<close>

definition loan_other :: loan where
  "loan_other = loan_completed\<lparr>id_loan := 1700000000001, lenderId := Some 202,
                                lenderName := Some ''Ravi''\<rparr>"

definition now_ex :: string where
  "now_ex = ''2023-12-01T09:00:00.000Z''"

text \<open>Two states of the admin's edit form, and a choice in the lender select box.\<close>

definition edit_reopen :: editingLoan where
  "edit_reopen = \<lparr>amount_edit = 12000, duration_edit = 2, purpose_edit = ''Tuition'',
                   status_edit = ''Approved''\<rparr>"

definition edit_disbursed :: editingLoan where
  "edit_disbursed = \<lparr>amount_edit = 12000, duration_edit = 2, purpose_edit = ''Tuition'',
                      status_edit = ''Funds Disbursed''\<rparr>"

definition selected_ex :: "int \<Rightarrow> int option" where
  "selected_ex = (\<lambda>i. if i = lid_ex then Some 202 else None)"

section \<open>The sample history, checked against the handlers\<close>

lemma request_ex:
  "handleRequestLoan lid_ex ''2023-11-14T22:13:20.000Z'' borrower_ex [] form_ex
     = Inr [loan_pending]"
  by (simp add: handleRequestLoan_def borrower_ex_def form_ex_def loan_pending_def
        trim_def is_space_def)

lemma schedule_ex_eq: "generateEMISchedule 12000 2 = schedule_ex"
  by code_simp

lemma approve_ex: "ensureEMIs (handleApprove [loan_pending] lid_ex) = [loan_approved]"
  by (simp add: ensureEMIs_def handleApprove_def loan_pending_def loan_approved_def
        schedule_ex_eq)

lemma repaymentsOf_ex [simp]:
  "repaymentsOf loan_pending = []"
  "repaymentsOf loan_rejected = []"
  "repaymentsOf loan_approved = schedule_ex"
  "repaymentsOf loan_assigned = schedule_ex"
  "repaymentsOf loan_half = schedule_half"
  "repaymentsOf loan_completed = schedule_paid"
  "repaymentsOf loan_reopened = schedule_paid"
  by (simp_all add: repaymentsOf_def loan_pending_def loan_rejected_def loan_approved_def
        loan_assigned_def loan_half_def loan_completed_def loan_reopened_def)

lemma status_ex [simp]:
  "status loan_pending = ''Pending''"
  "status loan_rejected = ''Rejected''"
  "status loan_approved = ''Approved''"
  "status loan_assigned = ''Approved''"
  "status loan_half = ''Approved''"
  "status loan_completed = ''Completed''"
  "status loan_reopened = ''Approved''"
  by (simp_all add: loan_pending_def loan_rejected_def loan_approved_def
        loan_assigned_def loan_half_def loan_completed_def loan_reopened_def)

lemma id_loan_ex [simp]:
  "id_loan loan_pending = lid_ex"
  "id_loan loan_rejected = lid_ex"
  "id_loan loan_approved = lid_ex"
  "id_loan loan_assigned = lid_ex"
  "id_loan loan_half = lid_ex"
  "id_loan loan_completed = lid_ex"
  "id_loan loan_reopened = lid_ex"
  by (simp_all add: loan_pending_def loan_rejected_def loan_approved_def
        loan_assigned_def loan_half_def loan_completed_def loan_reopened_def)

lemma pay_first_ex: "handleRepayment [loan_approved] lid_ex 0 = [loan_half]"
  by (simp add: handleRepayment_def repay_loan_def repaymentsOf_def Let_def schedule_ex_def
        schedule_half_def loan_approved_def loan_half_def)

lemma pay_second_ex: "handleRepayment [loan_half] lid_ex 1 = [loan_completed]"
  by (simp add: handleRepayment_def repay_loan_def repaymentsOf_def Let_def schedule_half_def
        schedule_paid_def loan_half_def loan_completed_def)

lemma reject_ex: "handleReject [loan_pending] lid_ex = [loan_rejected]"
  by (simp add: handleReject_def loan_rejected_def)

lemma assign_ex:
  "handleAssignLender selected_ex [borrower_ex, lender_ex] [loan_approved] lid_ex
     = Inr [loan_assigned]"
  by (simp add: handleAssignLender_def assign_loan_def selected_ex_def borrower_ex_def
        lender_ex_def loan_assigned_def)

lemma reopen_ex: "handleSaveLoan edit_reopen [loan_completed] lid_ex = Inr [loan_reopened]"
  by (simp add: handleSaveLoan_def edit_reopen_def loan_completed_def loan_reopened_def
        loan_pending_def trim_def is_space_def)

section \<open>Recording a payment\<close>

lemma repay_loan_noop:
  "\<not> index < length (repaymentsOf l) \<or> paid (repaymentsOf l ! index) \<Longrightarrow> repay_loan index l = l"
  by (auto simp: repay_loan_def)

lemma repaymentsOf_repay_loan:
  "repaymentsOf (repay_loan index l) =
     (if index < length (repaymentsOf l) \<and> \<not> paid (repaymentsOf l ! index)
      then (repaymentsOf l)[index := (repaymentsOf l ! index)\<lparr>paid := True\<rparr>]
      else repaymentsOf l)"
  by (auto simp: repay_loan_def Let_def repaymentsOf_def)

lemma status_repay_loan:
  "status (repay_loan index l) =
     (if index < length (repaymentsOf l) \<and> \<not> paid (repaymentsOf l ! index)
         \<and> list_all paid (repaymentsOf (repay_loan index l))
      then ''Completed'' else status l)"
  by (auto simp: repay_loan_def Let_def repaymentsOf_def)

lemma id_loan_repay_loan: "id_loan (repay_loan index l) = id_loan l"
  by (simp add: repay_loan_def Let_def)

lemma repay_loan_idem: "repay_loan index (repay_loan index l) = repay_loan index l"
proof (cases "index < length (repaymentsOf l) \<and> \<not> paid (repaymentsOf l ! index)")
  case True
  then have "paid (repaymentsOf (repay_loan index l) ! index)"
    by (simp add: repaymentsOf_repay_loan)
  then show ?thesis by (rule repay_loan_noop [OF disjI2])
next
  case False
  then have "repay_loan index l = l" by (intro repay_loan_noop) auto
  then show ?thesis by simp
qed

lemma paid_repay_loan_mono:
  "j < length (repaymentsOf l) \<Longrightarrow> paid (repaymentsOf l ! j) \<Longrightarrow>
   paid (repaymentsOf (repay_loan index l) ! j)"
  by (simp add: repaymentsOf_repay_loan nth_list_update)

lemma nth_handleRepayment:
  "i < length loans \<Longrightarrow>
   handleRepayment loans loanId index ! i
     = (if id_loan (loans ! i) \<noteq> loanId then loans ! i else repay_loan index (loans ! i))"
  by (simp add: handleRepayment_def)

lemma list_all_paid_update:
  assumes "index < length rs" "\<forall>j < length rs. j \<noteq> index \<longrightarrow> paid (rs ! j)"
  shows "list_all paid (rs[index := (rs ! index)\<lparr>paid := True\<rparr>])"
  unfolding list_all_length
proof (intro allI impI)
  fix n assume "n < length (rs[index := (rs ! index)\<lparr>paid := True\<rparr>])"
  with assms show "paid (rs[index := (rs ! index)\<lparr>paid := True\<rparr>] ! n)"
    by (cases "n = index") simp_all
qed

text \<open>
  Claim C10. Recording a payment never unmarks one and is idempotent: applying
  \<open>handleRepayment\<close> twice with the same loan id and index gives what one application
  gives; the collection keeps its length; a loan whose indexed repayment is missing or
  already paid is returned as it was; and every loan keeps the number of its repayments
  and every paid flag that was set.
\<close>

theorem handleRepayment_never_unmarks_idempotent:
  "handleRepayment (handleRepayment loans loanId index) loanId index
     = handleRepayment loans loanId index
   \<and> length (handleRepayment loans loanId index) = length loans
   \<and> (\<forall>i < length loans.
        ((\<not> index < length (repaymentsOf (loans ! i)) \<or> paid (repaymentsOf (loans ! i) ! index))
           \<longrightarrow> handleRepayment loans loanId index ! i = loans ! i)
        \<and> length (repaymentsOf (handleRepayment loans loanId index ! i))
              = length (repaymentsOf (loans ! i))
        \<and> (\<forall>j < length (repaymentsOf (loans ! i)).
              paid (repaymentsOf (loans ! i) ! j)
                \<longrightarrow> paid (repaymentsOf (handleRepayment loans loanId index ! i) ! j)))"
proof (intro conjI allI impI)
  show "handleRepayment (handleRepayment loans loanId index) loanId index
          = handleRepayment loans loanId index"
    by (simp add: handleRepayment_def id_loan_repay_loan repay_loan_idem)
next
  show "length (handleRepayment loans loanId index) = length loans"
    by (simp add: handleRepayment_def)
next
  fix i assume "i < length loans"
    and "\<not> index < length (repaymentsOf (loans ! i)) \<or> paid (repaymentsOf (loans ! i) ! index)"
  then show "handleRepayment loans loanId index ! i = loans ! i"
    by (simp add: nth_handleRepayment repay_loan_noop)
next
  fix i assume "i < length loans"
  then show "length (repaymentsOf (handleRepayment loans loanId index ! i))
               = length (repaymentsOf (loans ! i))"
    by (simp add: nth_handleRepayment repaymentsOf_repay_loan)
next
  fix i j assume "i < length loans" "j < length (repaymentsOf (loans ! i))"
    "paid (repaymentsOf (loans ! i) ! j)"
  then show "paid (repaymentsOf (handleRepayment loans loanId index ! i) ! j)"
    by (simp add: nth_handleRepayment paid_repay_loan_mono)
qed

text \<open>
  On the half-paid sample loan, paying the first instalment again changes nothing and
  the flag stays set.
\<close>

theorem handleRepayment_never_unmarks_idempotent_witness:
  "paid (repaymentsOf ([loan_half] ! 0) ! 0)
   \<and> handleRepayment [loan_half] lid_ex 0 ! 0 = [loan_half] ! 0
   \<and> paid (repaymentsOf (handleRepayment [loan_half] lid_ex 0 ! 0) ! 0)
   \<and> handleRepayment (handleRepayment [loan_half] lid_ex 0) lid_ex 0
        = handleRepayment [loan_half] lid_ex 0"
  using handleRepayment_never_unmarks_idempotent [of "[loan_half]" lid_ex 0]
  by (simp add: schedule_half_def)

text \<open>
  Claim C2, as stated, fails. After the sample loan is completed the admin's edit form
  can set it back to Approved; every repayment is then paid, recording a payment returns
  the loan as it is, and the status stays Approved. A freshly requested loan has no
  repayment entries at all, so none is unpaid, and it is Pending.
\<close>

theorem record_payment_all_paid_not_completed:
  "handleSaveLoan edit_reopen [loan_completed] lid_ex = Inr [loan_reopened]
   \<and> list_all paid (repaymentsOf (handleRepayment [loan_reopened] lid_ex 0 ! 0))
   \<and> status (handleRepayment [loan_reopened] lid_ex 0 ! 0) = ''Approved''
   \<and> handleRequestLoan lid_ex ''2023-11-14T22:13:20.000Z'' borrower_ex [] form_ex
        = Inr [loan_pending]
   \<and> list_all paid (repaymentsOf loan_pending)
   \<and> status loan_pending = ''Pending''"
  by (simp add: reopen_ex request_ex handleRepayment_def repay_loan_def schedule_paid_def)

text \<open>
  Claim C2, amended. For the loan with the given id: when the indexed repayment exists
  and is unpaid, \<open>handleRepayment\<close> sets its paid flag and nothing else in the schedule,
  sets the status to Completed if every repayment is then paid and leaves the status
  unchanged otherwise; so marking the last unpaid repayment makes the loan Completed.
  When the indexed repayment is missing or already paid the loan is unchanged. If
  Completed implied that every repayment was paid before, it does so afterwards. Loans
  with another id are unchanged.
\<close>

theorem handleRepayment_completes_on_last_unpaid:
  "\<forall>i < length loans.
     (id_loan (loans ! i) = loanId \<longrightarrow>
        (index < length (repaymentsOf (loans ! i)) \<and> \<not> paid (repaymentsOf (loans ! i) ! index) \<longrightarrow>
            repaymentsOf (handleRepayment loans loanId index ! i)
              = (repaymentsOf (loans ! i))
                  [index := (repaymentsOf (loans ! i) ! index)\<lparr>paid := True\<rparr>]
          \<and> (list_all paid (repaymentsOf (handleRepayment loans loanId index ! i)) \<longrightarrow>
               status (handleRepayment loans loanId index ! i) = ''Completed'')
          \<and> (\<not> list_all paid (repaymentsOf (handleRepayment loans loanId index ! i)) \<longrightarrow>
               status (handleRepayment loans loanId index ! i) = status (loans ! i))
          \<and> ((\<forall>j < length (repaymentsOf (loans ! i)). j \<noteq> index
                   \<longrightarrow> paid (repaymentsOf (loans ! i) ! j)) \<longrightarrow>
               status (handleRepayment loans loanId index ! i) = ''Completed''))
      \<and> (\<not> (index < length (repaymentsOf (loans ! i))
             \<and> \<not> paid (repaymentsOf (loans ! i) ! index)) \<longrightarrow>
            handleRepayment loans loanId index ! i = loans ! i)
      \<and> ((status (loans ! i) = ''Completed'' \<longrightarrow> list_all paid (repaymentsOf (loans ! i))) \<longrightarrow>
          (status (handleRepayment loans loanId index ! i) = ''Completed'' \<longrightarrow>
             list_all paid (repaymentsOf (handleRepayment loans loanId index ! i)))))
   \<and> (id_loan (loans ! i) \<noteq> loanId \<longrightarrow> handleRepayment loans loanId index ! i = loans ! i)"
proof (intro allI impI conjI)
  fix i assume i: "i < length loans"
  let ?l = "loans ! i"
  let ?l' = "handleRepayment loans loanId index ! i"
  let ?rs = "repaymentsOf ?l"
  {
    assume "id_loan ?l \<noteq> loanId"
    with i show "?l' = ?l" by (simp add: nth_handleRepayment)
  }
  assume idl: "id_loan ?l = loanId"
  with i have l': "?l' = repay_loan index ?l" by (simp add: nth_handleRepayment)
  {
    assume "\<not> (index < length ?rs \<and> \<not> paid (?rs ! index))"
    then show "?l' = ?l" unfolding l' by (intro repay_loan_noop) auto
  }
  {
    assume inv: "status ?l = ''Completed'' \<longrightarrow> list_all paid ?rs"
      and c: "status ?l' = ''Completed''"
    show "list_all paid (repaymentsOf ?l')"
    proof (cases "index < length ?rs \<and> \<not> paid (?rs ! index)")
      case True
      show ?thesis
      proof (rule ccontr)
        assume n: "\<not> list_all paid (repaymentsOf ?l')"
        with c have "status ?l = ''Completed''"
          unfolding l' by (simp add: status_repay_loan)
        with inv have "list_all paid ?rs" by simp
        with True show False by (auto simp: list_all_length)
      qed
    next
      case False
      then have "repay_loan index ?l = ?l" by (intro repay_loan_noop) auto
      with inv c show ?thesis unfolding l' by simp
    qed
  }
  assume step: "index < length ?rs \<and> \<not> paid (?rs ! index)"
  then show upd: "repaymentsOf ?l' = ?rs[index := (?rs ! index)\<lparr>paid := True\<rparr>]"
    unfolding l' by (simp add: repaymentsOf_repay_loan)
  show "list_all paid (repaymentsOf ?l') \<Longrightarrow> status ?l' = ''Completed''"
    using step unfolding l' by (simp add: status_repay_loan)
  show "\<not> list_all paid (repaymentsOf ?l') \<Longrightarrow> status ?l' = status ?l"
    unfolding l' by (simp add: status_repay_loan)
  {
    assume "\<forall>j < length ?rs. j \<noteq> index \<longrightarrow> paid (?rs ! j)"
    with step have "list_all paid (repaymentsOf ?l')"
      unfolding upd by (intro list_all_paid_update) auto
    with step show "status ?l' = ''Completed''"
      unfolding l' by (simp add: status_repay_loan)
  }
qed

text \<open>
  Paying the second instalment of the half-paid sample loan, its last unpaid one,
  completes it.
\<close>

theorem handleRepayment_completes_on_last_unpaid_witness:
  "0 < length [loan_half] \<and> id_loan ([loan_half] ! 0) = lid_ex
   \<and> 1 < length (repaymentsOf ([loan_half] ! 0))
   \<and> \<not> paid (repaymentsOf ([loan_half] ! 0) ! 1)
   \<and> paid (repaymentsOf ([loan_half] ! 0) ! 0)
   \<and> status ([loan_half] ! 0) = ''Approved''
   \<and> status (handleRepayment [loan_half] lid_ex 1 ! 0) = ''Completed''
   \<and> list_all paid (repaymentsOf (handleRepayment [loan_half] lid_ex 1 ! 0))"
proof -
  have h: "\<forall>j < length (repaymentsOf ([loan_half] ! 0)). j \<noteq> 1
             \<longrightarrow> paid (repaymentsOf ([loan_half] ! 0) ! j)"
    by (simp add: schedule_half_def less_Suc_eq)
  have s: "1 < length (repaymentsOf ([loan_half] ! 0)) \<and> \<not> paid (repaymentsOf ([loan_half] ! 0) ! 1)"
    by (simp add: schedule_half_def)
  from handleRepayment_completes_on_last_unpaid [of "[loan_half]" lid_ex 1] h s
  have "status (handleRepayment [loan_half] lid_ex 1 ! 0) = ''Completed''"
    by simp
  moreover have "list_all paid (repaymentsOf (handleRepayment [loan_half] lid_ex 1 ! 0))"
    using pay_second_ex by (simp add: schedule_paid_def)
  ultimately show ?thesis using s by (simp add: schedule_half_def)
qed

section \<open>Approve, reject and assign\<close>

lemma nth_handleApprove:
  "k < length loans \<Longrightarrow>
   handleApprove loans i ! k
     = (if id_loan (loans ! k) = i then (loans ! k)\<lparr>status := ''Approved''\<rparr> else loans ! k)"
  by (simp add: handleApprove_def)

lemma nth_handleReject:
  "k < length loans \<Longrightarrow>
   handleReject loans i ! k
     = (if id_loan (loans ! k) = i then (loans ! k)\<lparr>status := ''Rejected''\<rparr> else loans ! k)"
  by (simp add: handleReject_def)

lemma distinct_ids_other:
  assumes "distinct (map id_loan loans)" "l \<in> set loans" "k < length loans" "loans ! k \<noteq> l"
  shows "id_loan (loans ! k) \<noteq> id_loan l"
proof -
  from assms(2) obtain m where m: "m < length loans" "loans ! m = l"
    by (auto simp: in_set_conv_nth)
  with assms(4) have "k \<noteq> m" by auto
  with assms(1,3) m(1) have "map id_loan loans ! k \<noteq> map id_loan loans ! m"
    by (simp add: nth_eq_iff_index_eq del: nth_map)
  with assms(3) m show ?thesis by simp
qed

text \<open>
  Claim C6, as stated, fails on the handlers: they do not look at the status. The
  sample loan, once rejected, is set to Approved by \<open>handleApprove\<close>.
\<close>

theorem handleApprove_overwrites_rejected:
  "handleReject [loan_pending] lid_ex = [loan_rejected]
   \<and> status ([loan_rejected] ! 0) = ''Rejected''
   \<and> handleApprove [loan_rejected] lid_ex \<noteq> [loan_rejected]
   \<and> status (handleApprove [loan_rejected] lid_ex ! 0) = ''Approved''"
  by (simp add: reject_ex) (simp add: handleApprove_def loan_rejected_def loan_pending_def)

text \<open>
  Claim C6, amended. The restriction to Pending loans is in the table, not in the
  handlers. The Approve and Reject buttons are rendered only in the row of a Pending
  loan that is not being edited; pressed there, in a collection whose ids are distinct,
  they leave every loan whose status is not Pending unchanged. The handlers themselves
  keep the length of the collection, set the status of each loan with the given id to
  Approved (Rejected) whatever it was, and leave the loans with other ids unchanged.
\<close>

theorem approve_reject_only_offered_on_pending:
  "(distinct (map id_loan loans) \<and> l \<in> set loans \<and> showApproveReject isEditing l \<longrightarrow>
      (\<forall>k < length loans. status (loans ! k) \<noteq> ''Pending'' \<longrightarrow>
          handleApprove loans (id_loan l) ! k = loans ! k
        \<and> handleReject loans (id_loan l) ! k = loans ! k))
   \<and> length (handleApprove loans i) = length loans
   \<and> length (handleReject loans i) = length loans
   \<and> (\<forall>k < length loans.
        handleApprove loans i ! k
          = (if id_loan (loans ! k) = i then (loans ! k)\<lparr>status := ''Approved''\<rparr> else loans ! k)
      \<and> handleReject loans i ! k
          = (if id_loan (loans ! k) = i then (loans ! k)\<lparr>status := ''Rejected''\<rparr> else loans ! k))"
proof (intro conjI impI allI)
  fix k
  assume a: "distinct (map id_loan loans) \<and> l \<in> set loans \<and> showApproveReject isEditing l"
    and k: "k < length loans" and st: "status (loans ! k) \<noteq> ''Pending''"
  from a have "status l = ''Pending''" by (simp add: showApproveReject_def)
  with st have "loans ! k \<noteq> l" by auto
  with a k have ne: "id_loan (loans ! k) \<noteq> id_loan l" by (intro distinct_ids_other) auto
  show "handleApprove loans (id_loan l) ! k = loans ! k"
    using k ne by (simp add: nth_handleApprove)
  show "handleReject loans (id_loan l) ! k = loans ! k"
    using k ne by (simp add: nth_handleReject)
qed (simp_all add: handleApprove_def handleReject_def)

text \<open>
  With the Pending sample loan and a completed loan of another id in the table,
  approving the first leaves the second as it is.
\<close>

theorem approve_reject_only_offered_on_pending_witness:
  "distinct (map id_loan [loan_pending, loan_other])
   \<and> loan_pending \<in> set [loan_pending, loan_other]
   \<and> showApproveReject False loan_pending
   \<and> status ([loan_pending, loan_other] ! 1) \<noteq> ''Pending''
   \<and> handleApprove [loan_pending, loan_other] (id_loan loan_pending) ! 1
        = [loan_pending, loan_other] ! 1
   \<and> handleApprove [loan_pending, loan_other] (id_loan loan_pending) ! 0
        = loan_pending\<lparr>status := ''Approved''\<rparr>"
proof -
  have h: "distinct (map id_loan [loan_pending, loan_other])
           \<and> loan_pending \<in> set [loan_pending, loan_other]
           \<and> showApproveReject False loan_pending"
    by (simp add: showApproveReject_def loan_other_def lid_ex_def)
  have s: "status ([loan_pending, loan_other] ! 1) \<noteq> ''Pending''"
    by (simp add: loan_other_def)
  from approve_reject_only_offered_on_pending
         [of "[loan_pending, loan_other]" loan_pending False "id_loan loan_pending"] h s
  have "handleApprove [loan_pending, loan_other] (id_loan loan_pending) ! 1
          = [loan_pending, loan_other] ! 1
        \<and> handleApprove [loan_pending, loan_other] (id_loan loan_pending) ! 0
          = loan_pending\<lparr>status := ''Approved''\<rparr>"
    by simp
  with h s show ?thesis by simp
qed

lemma handleAssignLender_found:
  assumes "sel loanId = Some lid" "find (\<lambda>u. id_user u = lid) users = Some lender"
  shows "handleAssignLender sel users loans loanId
           = Inr (map (\<lambda>l. if id_loan l \<noteq> loanId then l else assign_loan lender l) loans)"
  using assms by (simp add: handleAssignLender_def)

lemma handleAssignLender_Inr:
  assumes "handleAssignLender sel users loans loanId = Inr loans'"
  obtains lender where
    "loans' = map (\<lambda>l. if id_loan l \<noteq> loanId then l else assign_loan lender l) loans"
  using assms by (auto simp: handleAssignLender_def split: option.splits)

lemma status_assign_loan:
  "status (assign_loan lender l)
     = (if status l = ''Pending'' \<or> status l = ''Assigned'' then ''Approved'' else status l)"
  by (simp add: assign_loan_def)

text \<open>
  Claim C7, as stated, fails: binding a lender to the Approved sample loan leaves it
  Approved. No handler writes the status Assigned.
\<close>

theorem handleAssignLender_keeps_approved:
  "status ([loan_approved] ! 0) = ''Approved''
   \<and> handleAssignLender selected_ex [borrower_ex, lender_ex] [loan_approved] lid_ex
        = Inr [loan_assigned]
   \<and> lenderId loan_assigned = Some 202
   \<and> status loan_assigned = ''Approved''
   \<and> status loan_assigned \<noteq> ''Assigned''"
  by (simp add: assign_ex) (simp add: loan_assigned_def)

text \<open>
  Claim C7, amended. With a lender chosen for the loan and found among the users,
  \<open>handleAssignLender\<close> keeps the length of the collection and, on each loan with the
  given id, records the lender's id and name and sets the status to Approved when it
  was Pending or Assigned, leaving any other status (Approved included) as it is; in a
  row that renders the Assign button the status is Approved afterwards. Loans with other
  ids are unchanged. With no lender chosen, or one that is no user, nothing is updated.
  The Assign button is rendered only when the row is not being edited, no lender name is
  bound and the status is Pending, Approved or Assigned.
\<close>

theorem handleAssignLender_binds_and_approves:
  "(sel loanId = Some lid \<and> find (\<lambda>u. id_user u = lid) users = Some lender \<longrightarrow>
      (\<exists>loans'. handleAssignLender sel users loans loanId = Inr loans'
         \<and> length loans' = length loans
         \<and> (\<forall>k < length loans.
              (id_loan (loans ! k) = loanId \<longrightarrow>
                 loans' ! k = (loans ! k)\<lparr>lenderId := Some lid, lenderName := Some (name lender),
                     status := (if status (loans ! k) = ''Pending'' \<or> status (loans ! k) = ''Assigned''
                                then ''Approved'' else status (loans ! k))\<rparr>
               \<and> (showAssign isEditing (loans ! k) \<longrightarrow> status (loans' ! k) = ''Approved''))
            \<and> (id_loan (loans ! k) \<noteq> loanId \<longrightarrow> loans' ! k = loans ! k))))
   \<and> (sel loanId = None \<or> (sel loanId = Some lid \<and> find (\<lambda>u. id_user u = lid) users = None) \<longrightarrow>
        (\<exists>msg. handleAssignLender sel users loans loanId = Inl msg))
   \<and> (showAssign isEditing l \<longrightarrow>
        \<not> isEditing \<and> (lenderName l = None \<or> lenderName l = Some [])
        \<and> (status l = ''Pending'' \<or> status l = ''Approved'' \<or> status l = ''Assigned''))"
proof (intro conjI impI)
  assume a: "sel loanId = Some lid \<and> find (\<lambda>u. id_user u = lid) users = Some lender"
  then have idl: "id_user lender = lid" by (auto simp: find_Some_iff)
  let ?loans' = "map (\<lambda>l. if id_loan l \<noteq> loanId then l else assign_loan lender l) loans"
  have r: "handleAssignLender sel users loans loanId = Inr ?loans'"
    using a by (simp add: handleAssignLender_found)
  have "\<forall>k < length loans.
          (id_loan (loans ! k) = loanId \<longrightarrow>
             ?loans' ! k = (loans ! k)\<lparr>lenderId := Some lid, lenderName := Some (name lender),
                 status := (if status (loans ! k) = ''Pending'' \<or> status (loans ! k) = ''Assigned''
                            then ''Approved'' else status (loans ! k))\<rparr>
           \<and> (showAssign isEditing (loans ! k) \<longrightarrow> status (?loans' ! k) = ''Approved''))
        \<and> (id_loan (loans ! k) \<noteq> loanId \<longrightarrow> ?loans' ! k = loans ! k)"
    by (auto simp: assign_loan_def idl showAssign_def)
  then show "\<exists>loans'. handleAssignLender sel users loans loanId = Inr loans'
         \<and> length loans' = length loans
         \<and> (\<forall>k < length loans.
              (id_loan (loans ! k) = loanId \<longrightarrow>
                 loans' ! k = (loans ! k)\<lparr>lenderId := Some lid, lenderName := Some (name lender),
                     status := (if status (loans ! k) = ''Pending'' \<or> status (loans ! k) = ''Assigned''
                                then ''Approved'' else status (loans ! k))\<rparr>
               \<and> (showAssign isEditing (loans ! k) \<longrightarrow> status (loans' ! k) = ''Approved''))
            \<and> (id_loan (loans ! k) \<noteq> loanId \<longrightarrow> loans' ! k = loans ! k))"
    using r by (intro exI [of _ ?loans'] conjI) (assumption, simp, assumption)
next
  assume "sel loanId = None \<or> (sel loanId = Some lid \<and> find (\<lambda>u. id_user u = lid) users = None)"
  then show "\<exists>msg. handleAssignLender sel users loans loanId = Inl msg"
    by (auto simp: handleAssignLender_def)
qed (auto simp: showAssign_def)

text \<open>
  The lender Ravi is chosen for the Pending sample loan, whose row renders the Assign
  button: the loan carries his id and name afterwards and is Approved.
\<close>

theorem handleAssignLender_binds_and_approves_witness:
  "selected_ex lid_ex = Some 202
   \<and> find (\<lambda>u. id_user u = 202) [borrower_ex, lender_ex] = Some lender_ex
   \<and> showAssign False loan_pending
   \<and> handleAssignLender selected_ex [borrower_ex, lender_ex] [loan_pending] lid_ex
        = Inr [loan_pending\<lparr>lenderId := Some 202, lenderName := Some ''Ravi'',
                            status := ''Approved''\<rparr>]"
proof -
  have h: "selected_ex lid_ex = Some 202
           \<and> find (\<lambda>u. id_user u = 202) [borrower_ex, lender_ex] = Some lender_ex"
    by (simp add: selected_ex_def borrower_ex_def lender_ex_def)
  have g: "showAssign False loan_pending"
    by (simp add: showAssign_def loan_pending_def)
  from handleAssignLender_binds_and_approves
         [of selected_ex lid_ex 202 "[borrower_ex, lender_ex]" lender_ex "[loan_pending]"
             False loan_pending] h
  obtain loans' where l: "handleAssignLender selected_ex [borrower_ex, lender_ex] [loan_pending] lid_ex
                            = Inr loans'"
      "length loans' = length [loan_pending]"
      "loans' ! 0 = loan_pending\<lparr>lenderId := Some 202, lenderName := Some (name lender_ex),
                       status := ''Approved''\<rparr>"
    by auto
  from l(2) obtain x where "loans' = [x]" by (cases loans') auto
  with l(1,3) have "handleAssignLender selected_ex [borrower_ex, lender_ex] [loan_pending] lid_ex
        = Inr [loan_pending\<lparr>lenderId := Some 202, lenderName := Some ''Ravi'',
                            status := ''Approved''\<rparr>]"
    by (simp add: lender_ex_def)
  with h g show ?thesis by simp
qed

section \<open>Terminal states and disbursement\<close>

lemma nth_handleDisburse:
  "k < length loans \<Longrightarrow>
   handleDisburse now loans loanId ! k
     = (if id_loan (loans ! k) \<noteq> loanId then loans ! k
        else if status (loans ! k) = ''Funds Disbursed'' then loans ! k
        else (loans ! k)\<lparr>status := ''Funds Disbursed'', disbursedAt := Some now\<rparr>)"
  by (simp add: handleDisburse_def)

text \<open>
  Claim C3, as stated, fails: the admin's edit form writes whatever status it holds.
  Saved on the completed sample loan with status Approved, it reopens the loan.
\<close>

theorem handleSaveLoan_reopens_completed:
  "status ([loan_completed] ! 0) = ''Completed''
   \<and> handleSaveLoan edit_reopen [loan_completed] lid_ex = Inr [loan_reopened]
   \<and> status ([loan_reopened] ! 0) = ''Approved''"
  by (simp add: reopen_ex)

text \<open>
  Claim C3, amended. For a loan whose status is Rejected or Completed: assigning a
  lender never changes its status; recording a payment leaves a Completed loan
  Completed; and its rows render none of the Approve, Reject, Assign, Mark Disbursed and
  Pay buttons. (The admin's loan edit can set any status on it.)
\<close>

theorem terminal_status_kept:
  "\<forall>k < length loans.
     status (loans ! k) = ''Rejected'' \<or> status (loans ! k) = ''Completed'' \<longrightarrow>
       (\<forall>loans'. handleAssignLender sel users loans loanId = Inr loans' \<longrightarrow>
            status (loans' ! k) = status (loans ! k))
     \<and> (status (loans ! k) = ''Completed'' \<longrightarrow>
            status (handleRepayment loans loanId index ! k) = ''Completed'')
     \<and> \<not> showApproveReject isEditing (loans ! k)
     \<and> \<not> showAssign isEditing (loans ! k)
     \<and> \<not> showDisburse (loans ! k)
     \<and> \<not> showPay (loans ! k) emi"
proof (intro allI impI conjI)
  fix k loans'
  assume k: "k < length loans"
    and t: "status (loans ! k) = ''Rejected'' \<or> status (loans ! k) = ''Completed''"
    and r: "handleAssignLender sel users loans loanId = Inr loans'"
  from r obtain lender where
    "loans' = map (\<lambda>l. if id_loan l \<noteq> loanId then l else assign_loan lender l) loans"
    by (rule handleAssignLender_Inr)
  with k t show "status (loans' ! k) = status (loans ! k)"
    by (auto simp: status_assign_loan)
next
  fix k
  assume k: "k < length loans" and c: "status (loans ! k) = ''Completed''"
  then show "status (handleRepayment loans loanId index ! k) = ''Completed''"
    by (simp add: nth_handleRepayment status_repay_loan)
next
  fix k
  assume t: "status (loans ! k) = ''Rejected'' \<or> status (loans ! k) = ''Completed''"
  then show "\<not> showApproveReject isEditing (loans ! k)"
    by (auto simp: showApproveReject_def)
  from t show "\<not> showAssign isEditing (loans ! k)"
    by (auto simp: showAssign_def)
  from t show "\<not> showDisburse (loans ! k)"
    by (auto simp: showDisburse_def)
  from t show "\<not> showPay (loans ! k) emi"
    by (auto simp: showPay_def)
qed

text \<open>
  A lender is chosen for the completed sample loan and the handler called on it: the
  loan stays Completed, as it does when a payment is recorded on it.
\<close>

theorem terminal_status_kept_witness:
  "0 < length [loan_completed]
   \<and> status ([loan_completed] ! 0) = ''Completed''
   \<and> handleAssignLender selected_ex [borrower_ex, lender_ex] [loan_completed] lid_ex
        = Inr [assign_loan lender_ex loan_completed]
   \<and> status ([assign_loan lender_ex loan_completed] ! 0) = ''Completed''
   \<and> status (handleRepayment [loan_completed] lid_ex 0 ! 0) = ''Completed''
   \<and> \<not> showDisburse ([loan_completed] ! 0)"
proof -
  have r: "handleAssignLender selected_ex [borrower_ex, lender_ex] [loan_completed] lid_ex
             = Inr [assign_loan lender_ex loan_completed]"
    by (simp add: handleAssignLender_def selected_ex_def borrower_ex_def lender_ex_def)
  have c: "status ([loan_completed] ! 0) = ''Completed''" by simp
  from terminal_status_kept
         [of "[loan_completed]" selected_ex "[borrower_ex, lender_ex]" lid_ex 0 False
             "\<lparr>month = ''Month 1'', amount = 6000, paid = False\<rparr>"] r c
  have "status ([assign_loan lender_ex loan_completed] ! 0) = ''Completed''
        \<and> status (handleRepayment [loan_completed] lid_ex 0 ! 0) = ''Completed''
        \<and> \<not> showDisburse ([loan_completed] ! 0)"
    by simp
  with r c show ?thesis by simp
qed

lemma handleDisburse_elem:
  assumes "u \<in> set (handleDisburse now loans loanId)"
  obtains "u \<in> set loans"
  | v where "v \<in> set loans" "u = v\<lparr>status := ''Funds Disbursed'', disbursedAt := Some now\<rparr>"
  using assms by (auto simp: handleDisburse_def split: if_splits)

lemma handleDisburse_view:
  assumes "u \<in> set (handleDisburse now (assignedLoans uid allLoans) loanId)"
  shows "lenderId u = Some uid \<and> (u \<in> set allLoans \<or> status u = ''Funds Disbursed'')"
  using assms by (rule handleDisburse_elem) (auto simp: assignedLoans_def)

lemma find_Some_in_set: "find P xs = Some x \<Longrightarrow> x \<in> set xs"
  by (induction xs) (auto split: if_splits)

lemma updateLoans_lender_elem:
  assumes "l' \<in> set (updateLoans_lender uid allLoans updatedLoans)"
  shows "l' \<in> set allLoans \<or> l' \<in> set updatedLoans"
  using assms
  by (auto simp: updateLoans_lender_def Let_def split: if_splits option.splits
           dest: find_Some_in_set)

lemma nth_updateLoans_lender_other:
  assumes "k < length allLoans" "lenderId (allLoans ! k) \<noteq> Some uid"
  shows "updateLoans_lender uid allLoans updatedLoans ! k = allLoans ! k"
  using assms by (simp add: updateLoans_lender_def Let_def nth_append)

text \<open>
  Claim C4, as stated, fails: the admin's edit form can give the status Funds Disbursed
  to the freshly requested sample loan, which has no lender; and \<open>handleDisburse\<close>,
  which only checks for Funds Disbursed, rewrites a Completed loan.
\<close>

theorem funds_disbursed_without_lender:
  "handleRequestLoan lid_ex ''2023-11-14T22:13:20.000Z'' borrower_ex [] form_ex
     = Inr [loan_pending]
   \<and> handleSaveLoan edit_disbursed [loan_pending] lid_ex
        = Inr [loan_pending\<lparr>status := ''Funds Disbursed''\<rparr>]
   \<and> lenderId (loan_pending\<lparr>status := ''Funds Disbursed''\<rparr>) = None
   \<and> status loan_other = ''Completed''
   \<and> status (handleDisburse now_ex [loan_other] (id_loan loan_other) ! 0) = ''Funds Disbursed''"
  by (simp add: request_ex)
     (simp add: handleSaveLoan_def edit_disbursed_def loan_pending_def trim_def is_space_def
        handleDisburse_def loan_other_def loan_completed_def)

text \<open>
  Claim C4, amended. On the lender's dashboard, which lists the stored loans whose lender
  is the logged-in user, disbursing and writing back changes storage only by giving
  loans of that lender the status Funds Disbursed: every loan stored afterwards was
  stored before or is Funds Disbursed with that lender bound; every loan of the view
  has the lender bound; a stored loan with another or no lender stays as it is.
  \<open>handleDisburse\<close> leaves a loan unchanged when its status is already Funds Disbursed
  or its id is another. The Mark Disbursed button is not rendered for a loan that is
  Funds Disbursed, Completed or Rejected. (The admin's loan edit sets any status
  whether or not a lender is bound.)
\<close>

theorem disburse_needs_bound_lender:
  "(\<forall>l' \<in> set (updateLoans_lender uid allLoans
                  (handleDisburse now (assignedLoans uid allLoans) loanId)).
       l' \<in> set allLoans \<or> (status l' = ''Funds Disbursed'' \<and> lenderId l' = Some uid))
   \<and> (\<forall>u \<in> set (handleDisburse now (assignedLoans uid allLoans) loanId). lenderId u = Some uid)
   \<and> (\<forall>k < length allLoans. lenderId (allLoans ! k) \<noteq> Some uid \<longrightarrow>
         updateLoans_lender uid allLoans
           (handleDisburse now (assignedLoans uid allLoans) loanId) ! k = allLoans ! k)
   \<and> (\<forall>k < length loans.
         status (loans ! k) = ''Funds Disbursed'' \<or> id_loan (loans ! k) \<noteq> loanId \<longrightarrow>
           handleDisburse now loans loanId ! k = loans ! k)
   \<and> (status l = ''Funds Disbursed'' \<or> status l = ''Completed'' \<or> status l = ''Rejected''
         \<longrightarrow> \<not> showDisburse l)"
proof (intro conjI ballI allI impI)
  fix l'
  assume "l' \<in> set (updateLoans_lender uid allLoans
                      (handleDisburse now (assignedLoans uid allLoans) loanId))"
  then have "l' \<in> set allLoans
             \<or> l' \<in> set (handleDisburse now (assignedLoans uid allLoans) loanId)"
    by (rule updateLoans_lender_elem)
  then show "l' \<in> set allLoans \<or> (status l' = ''Funds Disbursed'' \<and> lenderId l' = Some uid)"
    using handleDisburse_view [of l' now uid allLoans loanId] by blast
next
  fix u
  assume "u \<in> set (handleDisburse now (assignedLoans uid allLoans) loanId)"
  then show "lenderId u = Some uid" by (simp add: handleDisburse_view)
next
  fix k
  assume "k < length allLoans" "lenderId (allLoans ! k) \<noteq> Some uid"
  then show "updateLoans_lender uid allLoans
               (handleDisburse now (assignedLoans uid allLoans) loanId) ! k = allLoans ! k"
    by (rule nth_updateLoans_lender_other)
next
  fix k
  assume "k < length loans"
    "status (loans ! k) = ''Funds Disbursed'' \<or> id_loan (loans ! k) \<noteq> loanId"
  then show "handleDisburse now loans loanId ! k = loans ! k"
    by (auto simp: nth_handleDisburse)
next
  assume "status l = ''Funds Disbursed'' \<or> status l = ''Completed'' \<or> status l = ''Rejected''"
  then show "\<not> showDisburse l" by (auto simp: showDisburse_def)
qed

text \<open>
  Storage holds the Approved sample loan with the lender Ravi bound. Ravi disburses it:
  the stored loan is then Funds Disbursed, stamped, and still his.
\<close>

theorem disburse_needs_bound_lender_witness:
  "updateLoans_lender 202 [loan_assigned] (handleDisburse now_ex (assignedLoans 202 [loan_assigned]) lid_ex)
     = [loan_assigned\<lparr>status := ''Funds Disbursed'', disbursedAt := Some now_ex\<rparr>]
   \<and> loan_assigned\<lparr>status := ''Funds Disbursed'', disbursedAt := Some now_ex\<rparr> \<notin> set [loan_assigned]
   \<and> status (loan_assigned\<lparr>status := ''Funds Disbursed'', disbursedAt := Some now_ex\<rparr>)
        = ''Funds Disbursed''
   \<and> lenderId (loan_assigned\<lparr>status := ''Funds Disbursed'', disbursedAt := Some now_ex\<rparr>)
        = Some 202"
proof -
  have e: "updateLoans_lender 202 [loan_assigned]
             (handleDisburse now_ex (assignedLoans 202 [loan_assigned]) lid_ex)
           = [loan_assigned\<lparr>status := ''Funds Disbursed'', disbursedAt := Some now_ex\<rparr>]"
    by (simp add: updateLoans_lender_def assignedLoans_def handleDisburse_def loan_assigned_def)
  have n: "loan_assigned\<lparr>status := ''Funds Disbursed'', disbursedAt := Some now_ex\<rparr>
             \<notin> set [loan_assigned]"
    by (simp add: loan_assigned_def loan_approved_def loan_pending_def)
  from disburse_needs_bound_lender [of 202 "[loan_assigned]" now_ex lid_ex "[]" loan_assigned] e n
  have "status (loan_assigned\<lparr>status := ''Funds Disbursed'', disbursedAt := Some now_ex\<rparr>)
          = ''Funds Disbursed''
        \<and> lenderId (loan_assigned\<lparr>status := ''Funds Disbursed'', disbursedAt := Some now_ex\<rparr>)
          = Some 202"
    by simp
  with e n show ?thesis by simp
qed

section \<open>Rounding to a double\<close>

text \<open>
  The bounds of binary64 rounding that the schedule needs: the exponent found by
  \<open>ilog2\<close> brackets its argument, rounding to an integer moves by at most a half, and
  so \<open>fl\<close> moves a number of the normal range by at most \<open>2^-53\<close> of itself.
\<close>

lemma fl_one_tenth: "fl (1 / 10) = 3602879701896397 / 36028797018963968"
  by code_simp

lemma fl_small_integer: "fl 1000 = 1000"
  by code_simp

lemma pow2_powi: "pow2 e = 2 powi e"
  by (simp add: pow2_def power_int_def power_inverse inverse_eq_divide power_one_over)

lemma pow2_pos: "0 < pow2 e"
  by (simp add: pow2_powi zero_less_power_int)

lemma pow2_add: "pow2 (a + b) = pow2 a * pow2 b"
  by (simp add: pow2_powi power_int_add)

lemma pow2_nat: "pow2 (int k) = 2 ^ k"
  by (simp add: pow2_def)

lemma pow2_mono: "a \<le> b \<Longrightarrow> pow2 a \<le> pow2 b"
  unfolding pow2_powi by (intro power_int_increasing) auto

lemma ilog2_bounds:
  assumes "0 < x"
  shows "pow2 (ilog2 x) \<le> x \<and> x < pow2 (ilog2 x + 1)"
proof (cases "1 \<le> x")
  case True
  define m where "m = \<lfloor>x\<rfloor>"
  have m: "0 < m" "of_int m \<le> x" "x < of_int m + 1"
    using True unfolding m_def by linarith+
  from bitlen_bounds [OF m(1)]
  have b: "2 ^ nat (bitlen m - 1) \<le> m" "m < 2 ^ nat (bitlen m)" by auto
  have bl: "1 \<le> bitlen m" using m(1) by (simp add: bitlen_alt_def)
  have e: "ilog2 x = bitlen m - 1" using True by (simp add: ilog2_def m_def)
  have "pow2 (bitlen m - 1) = 2 ^ nat (bitlen m - 1)" using bl by (simp add: pow2_def)
  also have "\<dots> = of_int (2 ^ nat (bitlen m - 1))" by simp
  also have "\<dots> \<le> of_int m" using b(1) by (simp only: of_int_le_iff)
  finally have lo: "pow2 (ilog2 x) \<le> x" using m(2) e by simp
  have "m + 1 \<le> 2 ^ nat (bitlen m)" using b(2) by simp
  then have "of_int (m + 1) \<le> (of_int (2 ^ nat (bitlen m)) :: rat)" by (simp only: of_int_le_iff)
  then have "of_int m + 1 \<le> (2 ^ nat (bitlen m) :: rat)" by simp
  also have "\<dots> = pow2 (bitlen m)" using bl by (simp add: pow2_def)
  finally have "x < pow2 (ilog2 x + 1)" using m(3) e by simp
  with lo show ?thesis by simp
next
  case False
  define y where "y = 1 / x"
  define m where "m = \<lceil>y\<rceil> - 1"
  have y: "1 < y" using False assms by (simp add: y_def)
  have m: "0 < m" "of_int m < y" "y \<le> of_int m + 1"
    using y unfolding m_def by (simp_all add: less_ceiling_iff) linarith+
  from bitlen_bounds [OF m(1)]
  have b: "2 ^ nat (bitlen m - 1) \<le> m" "m < 2 ^ nat (bitlen m)" by auto
  have bl: "1 \<le> bitlen m" using m(1) by (simp add: bitlen_alt_def)
  have e: "ilog2 x = - bitlen m" using False by (simp add: ilog2_def m_def y_def)
  have "m + 1 \<le> 2 ^ nat (bitlen m)" using b(2) by simp
  then have "of_int (m + 1) \<le> (of_int (2 ^ nat (bitlen m)) :: rat)" by (simp only: of_int_le_iff)
  then have "y \<le> 2 ^ nat (bitlen m)" using m(3) by simp
  then have "1 / 2 ^ nat (bitlen m) \<le> x"
    using assms by (simp add: y_def field_simps)
  moreover have "pow2 (- bitlen m) = 1 / 2 ^ nat (bitlen m)"
    using bl by (simp add: pow2_def)
  ultimately have lo: "pow2 (ilog2 x) \<le> x" using e by simp
  have "(of_int (2 ^ nat (bitlen m - 1)) :: rat) \<le> of_int m" using b(1) by (simp only: of_int_le_iff)
  then have "(2::rat) ^ nat (bitlen m - 1) \<le> of_int m" by simp
  with m(2) have "2 ^ nat (bitlen m - 1) < y" by linarith
  then have "x < 1 / 2 ^ nat (bitlen m - 1)"
    using assms by (simp add: y_def field_simps)
  moreover have "pow2 (- bitlen m + 1) = 1 / 2 ^ nat (bitlen m - 1)"
  proof (cases "bitlen m = 1")
    case True then show ?thesis by (simp add: pow2_def)
  next
    case False
    with bl have "nat (- (- bitlen m + 1)) = nat (bitlen m - 1)" "\<not> 0 \<le> - bitlen m + 1" by auto
    then show ?thesis by (simp add: pow2_def)
  qed
  ultimately have "x < pow2 (ilog2 x + 1)" using e by simp
  with lo show ?thesis by simp
qed

lemma round_half_even_error: "\<bar>of_int (round_half_even r) - r\<bar> \<le> 1 / 2"
proof -
  have "of_int \<lfloor>r\<rfloor> \<le> r" "r < of_int \<lfloor>r\<rfloor> + 1" by linarith+
  then show ?thesis
    by (auto simp: round_half_even_def Let_def)
qed

lemma round_half_even_nonneg: "0 \<le> r \<Longrightarrow> 0 \<le> round_half_even r"
  by (auto simp: round_half_even_def Let_def)

lemma fl_nonneg: "0 \<le> x \<Longrightarrow> 0 \<le> fl x"
  using pow2_pos by (auto simp: fl_def Let_def intro!: mult_nonneg_nonneg round_half_even_nonneg
        simp: less_imp_le)

lemma fl_error:
  assumes "0 < x"
  shows "\<bar>fl x - x\<bar> \<le> pow2 (max (ilog2 x) (- 1022) - 53)"
proof -
  define e where "e = max (ilog2 x) (- 1022) - 52"
  define r where "r = x / pow2 e"
  have fx: "fl x = of_int (round_half_even r) * pow2 e"
    using assms by (simp add: fl_def Let_def e_def r_def)
  have x: "x = r * pow2 e" using pow2_pos [of e] by (simp add: r_def)
  have "fl x - x = (of_int (round_half_even r) - r) * pow2 e"
    by (simp add: fx algebra_simps) (simp add: x)
  then have "\<bar>fl x - x\<bar> = \<bar>of_int (round_half_even r) - r\<bar> * pow2 e"
    using pow2_pos [of e] by (simp add: abs_mult)
  also have "\<dots> \<le> (1 / 2) * pow2 e"
    using pow2_pos [of e] round_half_even_error [of r] by (intro mult_right_mono) auto
  also have "\<dots> = pow2 (e + (- 1))"
    by (simp only: pow2_add) (simp add: pow2_def)
  also have "e + (- 1) = max (ilog2 x) (- 1022) - 53" by (simp add: e_def)
  finally show ?thesis .
qed

lemma fl_error_normal:
  assumes "pow2 (- 1022) \<le> x"
  shows "\<bar>fl x - x\<bar> \<le> x / 2 ^ 53"
proof -
  have x0: "0 < x" using assms pow2_pos [of "- 1022"] by linarith
  from ilog2_bounds [OF x0] have b: "pow2 (ilog2 x) \<le> x" "x < pow2 (ilog2 x + 1)" by auto
  have "- 1022 \<le> ilog2 x"
  proof (rule ccontr)
    assume "\<not> - 1022 \<le> ilog2 x"
    then have "ilog2 x + 1 \<le> - 1022" by simp
    then have "pow2 (ilog2 x + 1) \<le> pow2 (- 1022)"
      by (rule pow2_mono)
    with b(2) assms show False by simp
  qed
  then have "max (ilog2 x) (- 1022) - 53 = ilog2 x + (- 53)" by simp
  with fl_error [OF x0] have "\<bar>fl x - x\<bar> \<le> pow2 (ilog2 x + (- 53))" by simp
  also have "\<dots> = pow2 (ilog2 x) / 2 ^ 53"
    by (simp only: pow2_add) (simp add: pow2_def)
  also have "\<dots> \<le> x / 2 ^ 53" using b(1) by (simp add: divide_right_mono)
  finally show ?thesis .
qed

lemma fl_error_subnormal:
  assumes "0 < x" "x < pow2 (- 1022)"
  shows "\<bar>fl x - x\<bar> \<le> pow2 (- 1075)"
proof -
  from ilog2_bounds [OF assms(1)] have b: "pow2 (ilog2 x) \<le> x" by auto
  have "ilog2 x < - 1022"
  proof (rule ccontr)
    assume "\<not> ilog2 x < - 1022"
    then have "- 1022 \<le> ilog2 x" by simp
    then have "pow2 (- 1022) \<le> pow2 (ilog2 x)"
      by (rule pow2_mono)
    with b assms(2) show False by simp
  qed
  then have "max (ilog2 x) (- 1022) - 53 = - 1075" by simp
  with fl_error [OF assms(1)] show ?thesis by simp
qed

lemma toFixed2_nonneg:
  assumes "0 \<le> x" "x < 10 ^ 21"
  shows "toFixed2 x = of_int \<lfloor>100 * x + 1 / 2\<rfloor> / 100"
proof (cases "x = 0")
  case True
  have "\<lfloor>1 / 2 :: rat\<rfloor> = 0" by (rule floor_unique) simp_all
  with True show ?thesis by (simp add: toFixed2_def)
next
  case False
  with assms have "0 < x" by simp
  with assms(2) show ?thesis by (simp add: toFixed2_def)
qed

lemma quotient_amount_close:
  fixes p :: int and n :: nat
  assumes p: "0 < p" "200 * p < 2 ^ 53" and n: "1 \<le> n"
  shows "\<bar>toFixed2 (js_div (of_int p) (of_nat n)) - of_int p / of_nat n\<bar> \<le> 1 / 200"
proof -
  define P :: rat where "P = of_int p"
  define N :: rat where "N = of_nat n"
  define q where "q = P / N"
  define f where "f = fl q"
  define j where "j = \<lfloor>100 * f + 1 / 2\<rfloor>"
  have P: "0 < P" "200 * P < 2 ^ 53"
  proof -
    show "0 < P" using p(1) by (simp add: P_def)
    have "(of_int (200 * p) :: rat) < of_int (2 ^ 53)" using p(2) by (simp only: of_int_less_iff)
    then show "200 * P < 2 ^ 53" by (simp add: P_def)
  qed
  have N: "1 \<le> N" using n by (simp add: N_def)
  have q: "0 < q" "q \<le> P" "q * N = P"
    using P(1) N by (simp_all add: q_def field_simps)
  have f0: "0 \<le> f" using q(1) by (simp add: f_def fl_nonneg)
  have js: "js_div (of_int p) (of_nat n) = f" by (simp add: js_div_def f_def q_def P_def N_def)
  have j: "of_int j \<le> 100 * f + 1 / 2" "100 * f + 1 / 2 < of_int j + 1"
    unfolding j_def by linarith+
  show ?thesis
  proof (cases "pow2 (- 1022) \<le> q")
    case False
    then have "\<bar>f - q\<bar> \<le> pow2 (- 1075)"
      using q(1) unfolding f_def by (intro fl_error_subnormal) auto
    moreover have small: "pow2 (- 1022) + pow2 (- 1075) < 1 / 200"
      by (simp add: pow2_def)
    ultimately have fs: "f < 1 / 200" using False by linarith
    have "pow2 (- 1075) > 0" by (rule pow2_pos)
    with small False have qs: "q < 1 / 200" by linarith
    from fs f0 have "j = 0" unfolding j_def by (simp add: floor_unique)
    moreover have "toFixed2 f = of_int j / 100"
      unfolding j_def using f0 fs by (intro toFixed2_nonneg) auto
    ultimately have "toFixed2 f = 0" by simp
    with qs q(1) show ?thesis unfolding js by (simp add: q_def P_def N_def)
  next
    case True
    then have err: "\<bar>f - q\<bar> \<le> q / 2 ^ 53" unfolding f_def by (rule fl_error_normal)
    have "\<bar>f - q\<bar> \<le> q / 9007199254740992" "200 * P < 9007199254740992"
      using err P(2) by simp_all
    with q(1,2) have "f < 1000000000000000000000" by linarith
    then have "f < 10 ^ 21" by simp
    with f0 have a: "toFixed2 f = of_int j / 100"
      unfolding j_def by (intro toFixed2_nonneg) auto
    define FN where "FN = f * N"
    define JN where "JN = of_int j * N"
    have N0: "0 < N" using N by simp
    define E where "E = q / 2 ^ 53"
    have EN: "E * N = P / 2 ^ 53"
      unfolding E_def by (simp flip: q(3))
    have e1: "FN - P \<le> P / 2 ^ 53" "P - FN \<le> P / 2 ^ 53"
    proof -
      from err have "\<bar>f - q\<bar> \<le> E" by (simp only: E_def)
      then have "f - q \<le> E" "q - f \<le> E" by linarith+
      then have "(f - q) * N \<le> E * N" "(q - f) * N \<le> E * N"
        using N0 by (simp_all only: mult_le_cancel_right_pos)
      then show "FN - P \<le> P / 2 ^ 53" "P - FN \<le> P / 2 ^ 53"
        unfolding EN using q(3) by (simp_all only: FN_def left_diff_distrib)
    qed
    have j1: "JN \<le> 100 * FN + N / 2" "100 * FN + N / 2 < JN + N"
    proof -
      from j N0 have "of_int j * N \<le> (100 * f + 1 / 2) * N" "(100 * f + 1 / 2) * N < (of_int j + 1) * N"
        by (auto intro!: mult_right_mono mult_strict_right_mono)
      then show "JN \<le> 100 * FN + N / 2" "100 * FN + N / 2 < JN + N"
        by (simp_all add: FN_def JN_def algebra_simps)
    qed
    have JNi: "JN = of_int (j * int n)" by (simp add: JN_def N_def)
    have Ni: "N = of_int (int n)" by (simp add: N_def)
    have up: "2 * JN - N \<le> 200 * P"
    proof (rule ccontr)
      assume "\<not> 2 * JN - N \<le> 200 * P"
      then have "(of_int (200 * p) :: rat) < of_int (2 * (j * int n) - int n)"
        by (simp add: JNi Ni P_def)
      then have "200 * p < 2 * (j * int n) - int n" by (simp only: of_int_less_iff)
      then have "200 * p + 1 \<le> 2 * (j * int n) - int n" by simp
      then have "(of_int (200 * p + 1) :: rat) \<le> of_int (2 * (j * int n) - int n)"
        by (simp only: of_int_le_iff)
      then have "200 * P + 1 \<le> 2 * JN - N" by (simp add: JNi Ni P_def)
      with j1(1) e1(1) P(2) show False by (simp add: field_simps)
    qed
    have lo: "200 * P \<le> 2 * JN + N"
    proof (rule ccontr)
      assume "\<not> 200 * P \<le> 2 * JN + N"
      then have "(of_int (2 * (j * int n) + int n) :: rat) < of_int (200 * p)"
        by (simp add: JNi Ni P_def)
      then have "2 * (j * int n) + int n < 200 * p" by (simp only: of_int_less_iff)
      then have "2 * (j * int n) + int n + 1 \<le> 200 * p" by simp
      then have "(of_int (2 * (j * int n) + int n + 1) :: rat) \<le> of_int (200 * p)"
        by (simp only: of_int_le_iff)
      then have "2 * JN + N + 1 \<le> 200 * P" by (simp add: JNi Ni P_def)
      with j1(2) e1(2) P(2) show False by (simp add: field_simps)
    qed
    have "\<bar>of_int j / 100 - q\<bar> * (200 * N) \<le> (1 / 200) * (200 * N)"
    proof -
      have m: "(of_int j / 100 - q) * (200 * N) = 2 * JN - 200 * P"
        using q(3) by (simp add: JN_def algebra_simps)
      have "\<bar>of_int j / 100 - q\<bar> * (200 * N) = \<bar>(of_int j / 100 - q) * (200 * N)\<bar>"
        using N0 by (simp add: abs_mult abs_of_pos)
      also have "\<dots> = \<bar>2 * JN - 200 * P\<bar>" by (simp only: m)
      also have "\<dots> \<le> N" using up lo by (simp add: abs_le_iff)
      finally show ?thesis by simp
    qed
    then have "\<bar>of_int j / 100 - q\<bar> \<le> 1 / 200"
      using N0 by simp
    then show ?thesis unfolding js a by (simp add: q_def P_def N_def)
  qed
qed

section \<open>The repayment schedule\<close>

lemma toFixed2_error: "\<bar>toFixed2 x - x\<bar> \<le> 1 / 200"
proof (cases "10 ^ 21 \<le> \<bar>x\<bar>")
  case True
  then show ?thesis by (simp add: toFixed2_def)
next
  case False
  define y where "y = 100 * \<bar>x\<bar> + 1 / 2"
  have f: "of_int \<lfloor>y\<rfloor> \<le> y" "y < of_int \<lfloor>y\<rfloor> + 1" by linarith+
  have "of_int \<lfloor>y\<rfloor> / 100 - \<bar>x\<bar> \<le> 1 / 200" "- (1 / 200) \<le> of_int \<lfloor>y\<rfloor> / 100 - \<bar>x\<bar>"
    using f unfolding y_def by linarith+
  then have "\<bar>of_int \<lfloor>y\<rfloor> / 100 - \<bar>x\<bar>\<bar> \<le> 1 / 200"
    by (intro abs_leI) linarith+
  moreover have "toFixed2 x - x = sgn x * (of_int \<lfloor>y\<rfloor> / 100 - \<bar>x\<bar>)"
    using False by (simp add: toFixed2_def y_def algebra_simps sgn_if)
  ultimately show ?thesis
    by (simp add: abs_mult abs_sgn_eq)
qed


lemma schedule_map:
  "map (\<lambda>i. f (i + 1)) [0..<n] = map f [1..<Suc n]"
proof -
  have "map f [1..<Suc n] = map f (map Suc [0..<n])"
    by (simp only: map_Suc_upt One_nat_def)
  then show ?thesis by (simp add: comp_def)
qed

lemma gen_nat:
  "1 \<le> n \<Longrightarrow> generateEMISchedule P (of_nat n) =
     map (\<lambda>i. \<lparr>month = ''Month '' @ decimal i, amount = toFixed2 (js_div P (of_nat n)), paid = False\<rparr>) [1..<Suc n]"
  unfolding generateEMISchedule_def Let_def
  using schedule_map [of "\<lambda>i. \<lparr>month = ''Month '' @ decimal i, amount = toFixed2 (js_div P (of_nat n)), paid = False\<rparr>" n]
  by simp


lemma sum_amount_schedule:
  "1 \<le> n \<Longrightarrow>
   sum_list (map amount (generateEMISchedule P (of_nat n)))
     = of_nat n * toFixed2 (js_div P (of_nat n))"
  by (simp add: gen_nat comp_def sum_list_triv algebra_simps)



text \<open>
  Claim C8, as stated, fails for large principals: the quotient is rounded to a double
  before it is printed. For a principal of \<open>10^18\<close> over seven months the double nearest
  to the quotient is 142857142857142864, and the seven entries sum to 48 more than the
  principal, against a tolerance of seven half-cents.
\<close>

theorem schedule_sum_far_from_principal:
  "length (generateEMISchedule (10 ^ 18) 7) = 7
   \<and> map amount (generateEMISchedule (10 ^ 18) 7) = replicate 7 142857142857142864
   \<and> sum_list (map amount (generateEMISchedule (10 ^ 18) 7)) - 10 ^ 18 = 48
   \<and> \<not> \<bar>sum_list (map amount (generateEMISchedule (10 ^ 18) 7)) - 10 ^ 18\<bar> \<le> 7 * (1 / 200)"
  by code_simp

text \<open>
  Claim C8, amended. For every duration \<open>n \<ge> 1\<close> the schedule has exactly \<open>n\<close> entries
  and their sum is within \<open>n\<close> half-cents of \<open>n\<close> times the JavaScript quotient
  \<open>P / n\<close>; for a whole-number principal \<open>0 < P < 2^53 / 200\<close> the sum is within \<open>n\<close>
  half-cents of \<open>P\<close> itself.
\<close>

theorem schedule_sum_within_half_cents:
  "(1 \<le> n \<longrightarrow>
      length (generateEMISchedule P (of_nat n)) = n
      \<and> \<bar>sum_list (map amount (generateEMISchedule P (of_nat n)))
           - of_nat n * js_div P (of_nat n)\<bar> \<le> of_nat n * (1 / 200))
   \<and> (1 \<le> n \<and> 0 < p \<and> 200 * p < 2 ^ 53 \<longrightarrow>
        \<bar>sum_list (map amount (generateEMISchedule (of_int p) (of_nat n))) - of_int p\<bar>
          \<le> of_nat n * (1 / 200))"
proof (intro conjI impI)
  assume n: "1 \<le> n"
  then show "length (generateEMISchedule P (of_nat n)) = n" by (simp add: gen_nat)
  have "sum_list (map amount (generateEMISchedule P (of_nat n))) - of_nat n * js_div P (of_nat n)
          = of_nat n * (toFixed2 (js_div P (of_nat n)) - js_div P (of_nat n))"
    using n by (simp add: sum_amount_schedule right_diff_distrib)
  then have "\<bar>sum_list (map amount (generateEMISchedule P (of_nat n)))
               - of_nat n * js_div P (of_nat n)\<bar>
             = of_nat n * \<bar>toFixed2 (js_div P (of_nat n)) - js_div P (of_nat n)\<bar>"
    by (simp add: abs_mult)
  also have "\<dots> \<le> of_nat n * (1 / 200)"
    by (intro mult_left_mono toFixed2_error) simp
  finally show "\<bar>sum_list (map amount (generateEMISchedule P (of_nat n)))
                  - of_nat n * js_div P (of_nat n)\<bar> \<le> of_nat n * (1 / 200)" .
next
  assume a: "1 \<le> n \<and> 0 < p \<and> 200 * p < 2 ^ 53"
  then have n0: "(of_nat n :: rat) \<noteq> 0" by simp
  have "sum_list (map amount (generateEMISchedule (of_int p) (of_nat n))) - of_int p
          = of_nat n * (toFixed2 (js_div (of_int p) (of_nat n)) - of_int p / of_nat n)"
    using a n0 by (simp add: sum_amount_schedule right_diff_distrib)
  then have "\<bar>sum_list (map amount (generateEMISchedule (of_int p) (of_nat n))) - of_int p\<bar>
             = of_nat n * \<bar>toFixed2 (js_div (of_int p) (of_nat n)) - of_int p / of_nat n\<bar>"
    by (simp add: abs_mult)
  also have "\<dots> \<le> of_nat n * (1 / 200)"
    using a by (intro mult_left_mono quotient_amount_close) simp_all
  finally show "\<bar>sum_list (map amount (generateEMISchedule (of_int p) (of_nat n))) - of_int p\<bar>
                  \<le> of_nat n * (1 / 200)" .
qed

text \<open>
  100 over three months: the entries sum to 99.99, a cent from the principal and within
  three half-cents of it.
\<close>

theorem schedule_sum_within_half_cents_witness:
  "(1::nat) \<le> 3 \<and> (0::int) < 100 \<and> (200::int) * 100 < 2 ^ 53
   \<and> sum_list (map amount (generateEMISchedule 100 3)) = 9999 / 100
   \<and> \<bar>sum_list (map amount (generateEMISchedule 100 3)) - 100\<bar> \<le> 3 * (1 / 200)"
proof -
  have h: "(1::nat) \<le> 3 \<and> (0::int) < 100 \<and> (200::int) * 100 < 2 ^ 53" by simp
  have s: "sum_list (map amount (generateEMISchedule 100 3)) = 9999 / 100" by code_simp
  from schedule_sum_within_half_cents [of 3 100 100] h
  have "\<bar>sum_list (map amount (generateEMISchedule 100 3)) - 100\<bar> \<le> 3 * (1 / 200)"
    by simp
  with h s show ?thesis by simp
qed

section \<open>The EMI calculators\<close>






text \<open>
  Evaluating \<open>fl\<close> at a given number: the exponent and the rounded significand are
  supplied and checked.
\<close>

lemma ilog2_unique:
  assumes "0 < x" "pow2 e \<le> x" "x < pow2 (e + 1)"
  shows "ilog2 x = e"
proof -
  from ilog2_bounds [OF assms(1)]
  have b: "pow2 (ilog2 x) \<le> x" "x < pow2 (ilog2 x + 1)" by auto
  have "\<not> ilog2 x < e"
  proof
    assume "ilog2 x < e"
    then have "pow2 (ilog2 x + 1) \<le> pow2 e" by (intro pow2_mono) simp
    with b(2) assms(2) show False by simp
  qed
  moreover have "\<not> e < ilog2 x"
  proof
    assume "e < ilog2 x"
    then have "pow2 (e + 1) \<le> pow2 (ilog2 x)" by (intro pow2_mono) simp
    with b(1) assms(3) show False by simp
  qed
  ultimately show ?thesis by simp
qed

lemma round_half_even_unique:
  assumes "\<bar>of_int k - r\<bar> < 1 / 2"
  shows "round_half_even r = k"
proof -
  have "\<bar>(of_int (round_half_even r) :: rat) - of_int k\<bar> < 1"
    using round_half_even_error [of r] assms by linarith
  then have "\<bar>(of_int (round_half_even r - k) :: rat)\<bar> < of_int 1" by simp
  then have "\<bar>round_half_even r - k\<bar> < 1" by (simp only: of_int_abs [symmetric] of_int_less_iff)
  then show ?thesis by simp
qed

lemma fl_eqI:
  assumes "x \<noteq> 0" "pow2 e \<le> \<bar>x\<bar>" "\<bar>x\<bar> < pow2 (e + 1)" "- 1022 \<le> e"
    and "\<bar>of_int k - x / pow2 (e - 52)\<bar> < 1 / 2"
  shows "fl x = of_int k * pow2 (e - 52)"
proof -
  have "ilog2 \<bar>x\<bar> = e" using assms(1-3) by (intro ilog2_unique) auto
  then have "max (ilog2 \<bar>x\<bar>) (- 1022) - 52 = e - 52" using assms(4) by simp
  moreover have "round_half_even (x / pow2 (e - 52)) = k"
    using assms(5) by (rule round_half_even_unique)
  ultimately show ?thesis using assms(1) by (simp add: fl_def Let_def)
qed

lemma round_half_even_tie:
  assumes "\<bar>of_int k - r\<bar> = 1 / 2" "even k"
  shows "round_half_even r = k"
proof (cases "of_int k \<le> r")
  case True
  with assms(1) have r: "r = of_int k + 1 / 2" by linarith
  then have "\<lfloor>r\<rfloor> = k" by (simp add: floor_unique)
  with r assms(2) show ?thesis by (simp add: round_half_even_def Let_def)
next
  case False
  with assms(1) have r: "r = of_int (k - 1) + 1 / 2" by simp
  then have f: "\<lfloor>r\<rfloor> = k - 1" by (intro floor_unique) simp_all
  have "odd (k - 1)" using assms(2) by simp
  with r f show ?thesis by (simp add: round_half_even_def Let_def)
qed

lemma fl_tie_eqI:
  assumes "x \<noteq> 0" "pow2 e \<le> \<bar>x\<bar>" "\<bar>x\<bar> < pow2 (e + 1)" "- 1022 \<le> e"
    and "\<bar>of_int k - x / pow2 (e - 52)\<bar> = 1 / 2" "even k"
  shows "fl x = of_int k * pow2 (e - 52)"
proof -
  have "ilog2 \<bar>x\<bar> = e" using assms(1-3) by (intro ilog2_unique) auto
  then have "max (ilog2 \<bar>x\<bar>) (- 1022) - 52 = e - 52" using assms(4) by simp
  moreover have "round_half_even (x / pow2 (e - 52)) = k"
    using assms(5,6) by (rule round_half_even_tie)
  ultimately show ?thesis using assms(1) by (simp add: fl_def Let_def)
qed

text \<open>
  Known answers of binary64: a tie goes to the even significand, the largest double is a
  fixed point, and the first number that rounds past it becomes \<open>Infinity\<close>.
\<close>

lemma fl_ties_to_even: "fl (2 ^ 53 + 1) = 2 ^ 53" "fl (2 ^ 53 + 3) = 2 ^ 53 + 4"
  using fl_tie_eqI [of "2 ^ 53 + 1" 53 "2 ^ 52"] fl_tie_eqI [of "2 ^ 53 + 3" 53 "2 ^ 52 + 2"]
  by (simp_all add: pow2_def)

lemma fl_max_double: "fl max_double = max_double"
  using fl_eqI [of max_double 1023 "2 ^ 53 - 1"]
  by (simp add: pow2_def max_double_def)

lemma js_round_overflow:
  "js_round max_double = Fin max_double"
  "js_round (2 ^ 1024 - 2 ^ 970) = PosInf"
proof -
  show "js_round max_double = Fin max_double"
    by (simp add: js_round_def Let_def fl_max_double) (simp add: max_double_def)
  have "fl (2 ^ 1024 - 2 ^ 970) = 2 ^ 1024"
    using fl_tie_eqI [of "2 ^ 1024 - 2 ^ 970" 1023 "2 ^ 53"]
    by (simp add: pow2_def)
  then show "js_round (2 ^ 1024 - 2 ^ 970) = PosInf"
    by (simp add: js_round_def Let_def max_double_def)
qed















end
